theory Spec2Isabelle
  imports Main
begin

section \<open>JavaScript values\<close>

text \<open>
  Configuration values come from \<^verbatim>\<open>config.get(key)\<close> and are untyped at run time:
  the source itself tests \<^verbatim>\<open>typeof\<close> on them. Numbers are restricted to integers, and
  strings are lists of 8-bit characters (the code units below 256).
\<close>

datatype jsval = JUndefined | JNull | JBool bool | JNum int | JStr string | JArr "string list"

fun truthy :: "jsval \<Rightarrow> bool" where
  "truthy JUndefined = False"
| "truthy JNull = False"
| "truthy (JBool b) = b"
| "truthy (JNum n) = (n \<noteq> 0)"
| "truthy (JStr s) = (s \<noteq> [])"
| "truthy (JArr xs) = True"

definition js_or :: "jsval \<Rightarrow> jsval \<Rightarrow> jsval" where
  "js_or a b = (if truthy a then a else b)"

fun is_boolean :: "jsval \<Rightarrow> bool" where
  "is_boolean (JBool b) = True"
| "is_boolean v = False"

fun is_string :: "jsval \<Rightarrow> bool" where
  "is_string (JStr s) = True"
| "is_string v = False"

section \<open>String primitives used by the settings resolver\<close>

subsection \<open>\<^verbatim>\<open>.replace(/%([^%]+)%/g, (_, key) => process.env[key])\<close>\<close>

text \<open>
  \<^verbatim>\<open>process.env[key]\<close> is the value of a variable that is set (always a string), undefined
  for a name that is neither set nor inherited, and for a name that \<^verbatim>\<open>process.env\<close> inherits
  from \<^verbatim>\<open>Object.prototype\<close> (\<^verbatim>\<open>toString\<close>, \<^verbatim>\<open>constructor\<close>, ...) the inherited member, of
  which \<open>EnvInherited\<close> carries the string conversion. The callback's result is converted
  to a string by \<^verbatim>\<open>String.prototype.replace\<close>.
\<close>

datatype env_lookup = EnvValue string | EnvUndefined | EnvInherited string

definition env_text :: "env_lookup \<Rightarrow> string" where
  "env_text v =
     (case v of
        EnvValue s \<Rightarrow> s
      | EnvUndefined \<Rightarrow> ''undefined''
      | EnvInherited t \<Rightarrow> t)"

function replace_env :: "(string \<Rightarrow> env_lookup) \<Rightarrow> string \<Rightarrow> string" where
  "replace_env env [] = []"
| "replace_env env (c # cs) =
     (let key = takeWhile (\<lambda>x. x \<noteq> CHR ''%'') cs;
          rest = dropWhile (\<lambda>x. x \<noteq> CHR ''%'') cs
      in if c = CHR ''%'' \<and> key \<noteq> [] \<and> rest \<noteq> []
         then env_text (env key) @ replace_env env (tl rest)
         else c # replace_env env cs)"
  by pat_completeness auto
termination
proof (relation "measure (\<lambda>(env, s). length s)")
  show "wf (measure (\<lambda>(env, s). length s))" by simp
next
  fix env :: "string \<Rightarrow> env_lookup" and c :: char and cs key rest :: string
  assume "rest = dropWhile (\<lambda>x. x \<noteq> CHR ''%'') cs"
  then have "length rest \<le> length cs" by (simp add: length_dropWhile_le)
  then show "((env, tl rest), (env, c # cs)) \<in> measure (\<lambda>(env, s). length s)" by simp
next
  fix env :: "string \<Rightarrow> env_lookup" and c :: char and cs :: string
  show "((env, cs), (env, c # cs)) \<in> measure (\<lambda>(env, s). length s)" by simp
qed

subsection \<open>Replacement templates (\<^verbatim>\<open>GetSubstitution\<close> without capture groups)\<close>

fun get_substitution :: "string \<Rightarrow> string \<Rightarrow> string \<Rightarrow> string \<Rightarrow> string" where
  "get_substitution matched preceding following [] = []"
| "get_substitution matched preceding following [c] = [c]"
| "get_substitution matched preceding following (c # d # r) =
     (if c = CHR ''$'' \<and> d = CHR ''$'' then CHR ''$'' # get_substitution matched preceding following r
      else if c = CHR ''$'' \<and> d = CHR ''&'' then matched @ get_substitution matched preceding following r
      else if c = CHR ''$'' \<and> d = CHR 0x60 then preceding @ get_substitution matched preceding following r
      else if c = CHR ''$'' \<and> d = CHR 0x27 then following @ get_substitution matched preceding following r
      else c # get_substitution matched preceding following (d # r))"

text \<open>\<^verbatim>\<open>.replace(/^~/, os.homedir())\<close>\<close>

definition replace_home :: "string \<Rightarrow> string \<Rightarrow> string" where
  "replace_home home s =
     (case s of
        [] \<Rightarrow> []
      | c # r \<Rightarrow> if c = CHR ''~'' then get_substitution ''~'' [] r home @ r else s)"

text \<open>\<^verbatim>\<open>s.indexOf(pat)\<close> and \<^verbatim>\<open>s.replace(pat, repl)\<close> for a string pattern.\<close>

fun index_of :: "string \<Rightarrow> string \<Rightarrow> nat option" where
  "index_of pat [] = (if pat = [] then Some 0 else None)"
| "index_of pat (c # cs) =
     (if take (length pat) (c # cs) = pat then Some 0 else map_option Suc (index_of pat cs))"

definition replace_first :: "string \<Rightarrow> string \<Rightarrow> string \<Rightarrow> string" where
  "replace_first pat repl s =
     (case index_of pat s of
        None \<Rightarrow> s
      | Some i \<Rightarrow>
          take i s
          @ get_substitution pat (take i s) (drop (i + length pat) s) repl
          @ drop (i + length pat) s)"

text \<open>\<^verbatim>\<open>.replace(/\//g, path.sep)\<close>, on a POSIX host, where \<^verbatim>\<open>path.sep\<close> is the slash.\<close>

definition path_sep :: string where
  "path_sep = ''/''"

definition replace_slashes :: "string \<Rightarrow> string" where
  "replace_slashes s = concat (map (\<lambda>c. if c = CHR ''/'' then path_sep else [c]) s)"

subsection \<open>\<^verbatim>\<open>historyPath.match(/\${workspaceFolder(?:\s*:\s*(.*))?}/i)\<close>\<close>

definition is_space :: "char \<Rightarrow> bool" where
  "is_space c = (c \<in> set [CHR 0x09, CHR 0x0A, CHR 0x0B, CHR 0x0C, CHR 0x0D, CHR 0x20, CHR 0xA0])"

definition is_line_terminator :: "char \<Rightarrow> bool" where
  "is_line_terminator c = (c = CHR 0x0A \<or> c = CHR 0x0D)"

definition upper_ascii :: "char \<Rightarrow> char" where
  "upper_ascii c =
     (case map_of (zip ''abcdefghijklmnopqrstuvwxyz'' ''ABCDEFGHIJKLMNOPQRSTUVWXYZ'') c of
        Some u \<Rightarrow> u
      | None \<Rightarrow> c)"

fun ci_prefix :: "string \<Rightarrow> string \<Rightarrow> string option" where
  "ci_prefix [] s = Some s"
| "ci_prefix (p # ps) [] = None"
| "ci_prefix (p # ps) (c # cs) =
     (if upper_ascii c = upper_ascii p then ci_prefix ps cs else None)"

text \<open>
  The optional group followed by the closing brace, tried at the text after the literal.
  Both \<^verbatim>\<open>\s*\<close> take every space there is; \<^verbatim>\<open>(.*)\<close> stays on the line and gives back
  characters until the last closing brace of that line. The result is the number of
  characters consumed (closing brace included) and the captured qualifier.
\<close>

definition match_qualifier :: "string \<Rightarrow> (nat \<times> string) option" where
  "match_qualifier rest =
     (case dropWhile is_space rest of
        [] \<Rightarrow> None
      | c # r2 \<Rightarrow>
          if c \<noteq> CHR '':'' then None
          else
            let r3 = dropWhile is_space r2;
                line = takeWhile (\<lambda>x. \<not> is_line_terminator x) r3
            in if CHR ''}'' \<in> set line
               then
                 let cap = rev (tl (dropWhile (\<lambda>x. x \<noteq> CHR ''}'') (rev line)))
                 in Some (length rest - length r3 + length cap + 1, cap)
               else None)"

definition match_here :: "string \<Rightarrow> (string \<times> string option) option" where
  "match_here s =
     (case ci_prefix ''${workspaceFolder'' s of
        None \<Rightarrow> None
      | Some rest \<Rightarrow>
          (case match_qualifier rest of
             Some (n, cap) \<Rightarrow> Some (take (length ''${workspaceFolder'' + n) s, Some cap)
           | None \<Rightarrow>
               (case rest of
                  [] \<Rightarrow> None
                | c # r \<Rightarrow>
                    if c = CHR ''}''
                    then Some (take (length ''${workspaceFolder'' + 1) s, None)
                    else None)))"

record ws_match_result =
  m_index :: nat
  m_text :: string
  m_group :: "string option"

fun ws_match_from :: "nat \<Rightarrow> string \<Rightarrow> ws_match_result option" where
  "ws_match_from i [] = None"
| "ws_match_from i (c # cs) =
     (case match_here (c # cs) of
        Some (t, g) \<Rightarrow> Some \<lparr>m_index = i, m_text = t, m_group = g\<rparr>
      | None \<Rightarrow> ws_match_from (Suc i) cs)"

definition ws_match :: "string \<Rightarrow> ws_match_result option" where
  "ws_match s = ws_match_from 0 s"

subsection \<open>\<^verbatim>\<open>Number.parseInt(wsId, 10)\<close>\<close>

definition digit_val :: "char \<Rightarrow> int option" where
  "digit_val c = map_of (zip ''0123456789'' [0, 1, 2, 3, 4, 5, 6, 7, 8, 9]) c"

definition is_digit :: "char \<Rightarrow> bool" where
  "is_digit c = (digit_val c \<noteq> None)"

definition digits_val :: "string \<Rightarrow> int" where
  "digits_val ds =
     foldl (\<lambda>acc c. 10 * acc + (case digit_val c of Some d \<Rightarrow> d | None \<Rightarrow> 0)) 0 ds"

text \<open>\<open>None\<close> stands for \<^verbatim>\<open>NaN\<close>.\<close>

definition parse_int10 :: "string \<Rightarrow> int option" where
  "parse_int10 s =
     (let t = dropWhile is_space s;
          neg = (t \<noteq> [] \<and> hd t = CHR ''-'');
          u = (if t \<noteq> [] \<and> (hd t = CHR ''-'' \<or> hd t = CHR ''+'') then tl t else t);
          ds = takeWhile is_digit u
      in if ds = [] then None
         else Some (if neg then - digits_val ds else digits_val ds))"

section \<open>POSIX \<^verbatim>\<open>path.join\<close> and \<^verbatim>\<open>path.basename\<close>\<close>

fun split_slash :: "string \<Rightarrow> string list" where
  "split_slash [] = [[]]"
| "split_slash (c # cs) =
     (if c = CHR ''/'' then [] # split_slash cs
      else (case split_slash cs of
              [] \<Rightarrow> [[c]]
            | s # ss \<Rightarrow> (c # s) # ss))"

fun join_slash :: "string list \<Rightarrow> string" where
  "join_slash [] = []"
| "join_slash [s] = s"
| "join_slash (s # t # ss) = s @ ''/'' @ join_slash (t # ss)"

text \<open>One segment of \<^verbatim>\<open>normalizeString\<close>; the segments kept so far are held last-first.\<close>

definition norm_step :: "bool \<Rightarrow> string list \<Rightarrow> string \<Rightarrow> string list" where
  "norm_step allowAboveRoot st seg =
     (if seg = [] \<or> seg = ''.'' then st
      else if seg = ''..'' then
        (case st of
           [] \<Rightarrow> if allowAboveRoot then [seg] else []
         | seg0 # below \<Rightarrow>
             if seg0 \<noteq> ''..'' then below
             else if allowAboveRoot then seg # st else st)
      else seg # st)"

definition normalizeString :: "string \<Rightarrow> bool \<Rightarrow> string" where
  "normalizeString path allowAboveRoot =
     join_slash (rev (foldl (norm_step allowAboveRoot) [] (split_slash path)))"

definition path_normalize :: "string \<Rightarrow> string" where
  "path_normalize path =
     (if path = [] then ''.''
      else
        let isAbsolute = (hd path = CHR ''/'');
            trailingSeparator = (last path = CHR ''/'');
            p = normalizeString path (\<not> isAbsolute)
        in if p = [] then (if isAbsolute then ''/'' else if trailingSeparator then ''./'' else ''.'')
           else
             let p' = (if trailingSeparator then p @ ''/'' else p)
             in if isAbsolute then CHR ''/'' # p' else p')"

definition path_join :: "string list \<Rightarrow> string" where
  "path_join args =
     (let joined = join_slash (filter (\<lambda>a. a \<noteq> []) args)
      in if joined = [] then ''.'' else path_normalize joined)"

definition path_basename :: "string \<Rightarrow> string" where
  "path_basename path =
     rev (takeWhile (\<lambda>c. c \<noteq> CHR ''/'') (dropWhile (\<lambda>c. c = CHR ''/'') (rev path)))"

section \<open>The settings resolver (\<^verbatim>\<open>history.settings.ts\<close>)\<close>

text \<open>
  A \<^verbatim>\<open>vscode.Uri\<close> is represented by its \<^verbatim>\<open>fsPath\<close>. Everything the resolver reads
  from its surroundings is a field of \<open>host\<close>: the configuration, the process environment,
  the home directory, the workspace folders (absent when no folder is open), the owner
  lookup \<^verbatim>\<open>getWorkspaceFolder\<close>, the library predicate \<^verbatim>\<open>is-path-inside\<close> and the
  floating-point test \<^verbatim>\<open>Number.isInteger(wsId - 1)\<close>.
\<close>

record wsfolder =
  wf_uri :: string
  wf_name :: string
  wf_index :: int

record host =
  config :: "string \<Rightarrow> jsval"
  process_env :: "string \<Rightarrow> env_lookup"
  homedir :: string
  workspaceFolders :: "wsfolder list option"
  getWorkspaceFolder :: "string \<Rightarrow> wsfolder option"
  isPathInside :: "string \<Rightarrow> string \<Rightarrow> bool"
  isIntegerMinus1 :: "string \<Rightarrow> bool"

record settings =
  folder :: "string option"
  daysLimit :: jsval
  saveDelay :: jsval
  maxDisplay :: jsval
  dateLocale :: jsval
  exclude :: jsval
  enabled :: bool
  historyPath :: jsval
  absolute :: jsval

datatype message = WarningMessage string | ErrorMessage string

datatype exn = TypeError

text \<open>Lines 104-122: one warning naming every wrongly typed key.\<close>

definition type_warnings :: "host \<Rightarrow> message list" where
  "type_warnings h =
     (let message =
            (if is_boolean (config h ''enabled'') then ''time-machine.enabled must be a number, '' else [])
            @ (if is_string (config h ''exclude'') then ''time-machine.exclude must be an array, '' else [])
      in if message \<noteq> []
         then [WarningMessage (''Change setting: '' @ take (length message - 2) message)]
         else [])"

text \<open>
  Lines 140-158: the folder the token stands for. \<^verbatim>\<open>workspaceFolders.find\<close> raises a
  \<^verbatim>\<open>TypeError\<close> when no folder is open.
\<close>

definition find_history_ws ::
  "host \<Rightarrow> string option \<Rightarrow> string \<Rightarrow> ws_match_result \<Rightarrow> message list \<times> (exn + string option)" where
  "find_history_ws h workspacefolder hp m =
     (if m_index m > 1
      then ([ErrorMessage (''${workspaceFolder} must starts settings time-machine.path '' @ hp)],
            Inr None)
      else
        (case m_group m of
           None \<Rightarrow> ([], Inr workspacefolder)
         | Some wsId \<Rightarrow>
             if wsId = [] then ([], Inr workspacefolder)
             else
               (case workspaceFolders h of
                  None \<Rightarrow> ([], Inl TypeError)
                | Some wsfs \<Rightarrow>
                    (case List.find
                            (\<lambda>wsf. if isIntegerMinus1 h wsId
                                   then parse_int10 wsId = Some (wf_index wsf)
                                   else wf_name wsf = wsId) wsfs of
                       Some f \<Rightarrow> ([], Inr (Some (wf_uri f)))
                     | None \<Rightarrow> ([ErrorMessage (''workspaceFolder not found '' @ hp)], Inr None)))))"

text \<open>Lines 166-180: the pair (\<^verbatim>\<open>historyPath\<close>, \<^verbatim>\<open>absolute\<close>) for a usable path.\<close>

definition store_layout ::
  "host \<Rightarrow> string option \<Rightarrow> string option \<Rightarrow> jsval \<Rightarrow> jsval \<times> jsval" where
  "store_layout h workspacefolder historyWS hp =
     (case hp of
        JStr p \<Rightarrow>
          if p = [] then (hp, JUndefined)
          else
            let absolute = config h ''absolute'' in
            if truthy absolute \<or> (workspacefolder = None \<and> config h ''enabled'' = JNum 1)
            then (JStr (path_join [p, ''.history'']), JBool True)
            else
              (case workspacefolder of
                 Some root \<Rightarrow>
                   (JStr (path_join
                      [p, ''.history'',
                       if (case historyWS of Some hw \<Rightarrow> isPathInside h root hw | None \<Rightarrow> False)
                       then [] else path_basename root]),
                    absolute)
               | None \<Rightarrow> (hp, absolute))
      | _ \<Rightarrow> (hp, JUndefined))"

text \<open>Lines 126-180: a non-empty configured path string.\<close>

definition resolve_path ::
  "host \<Rightarrow> string option \<Rightarrow> string \<Rightarrow> message list \<times> (exn + jsval \<times> jsval)" where
  "resolve_path h workspacefolder p =
     (let hp = replace_home (homedir h) (replace_env (process_env h) p) in
      case ws_match hp of
        None \<Rightarrow> ([], Inr (store_layout h workspacefolder None (JStr hp)))
      | Some m \<Rightarrow>
          (case find_history_ws h workspacefolder hp m of
             (ms, Inl e) \<Rightarrow> (ms, Inl e)
           | (ms, Inr historyWS) \<Rightarrow>
               (ms, Inr (store_layout h workspacefolder historyWS
                           (case historyWS of
                              Some hw \<Rightarrow> JStr (replace_first (m_text m) hw hp)
                            | None \<Rightarrow> JNull)))))"

definition default_exclude :: jsval where
  "default_exclude =
     JArr [''**/.history/**'', ''**/.vscode/**'', ''**/node_modules/**'', ''**/typings/**'',
           ''**/out/**'']"

text \<open>Lines 124-189: the pair (\<^verbatim>\<open>historyPath\<close>, \<^verbatim>\<open>absolute\<close>) before the separators are
  normalised.\<close>

definition history_location ::
  "host \<Rightarrow> string option \<Rightarrow> message list \<times> (exn + jsval \<times> jsval)" where
  "history_location h workspacefolder =
     (if config h ''enabled'' \<noteq> JNum 0
      then
        (let hp = config h ''path'' in
         if truthy hp \<and> is_string hp
         then (case hp of
                 JStr p \<Rightarrow> resolve_path h workspacefolder p
               | _ \<Rightarrow> ([], Inr (hp, JUndefined)))
         else
           (case workspacefolder of
              Some root \<Rightarrow> ([], Inr (JStr (path_join [root, ''.history'']), JBool False))
            | None \<Rightarrow> ([], Inr (hp, JUndefined))))
      else ([], Inr (JNull, JUndefined)))"

text \<open>Lines 191-193.\<close>

definition normalize_separators :: "jsval \<Rightarrow> jsval" where
  "normalize_separators hp =
     (case hp of
        JStr s \<Rightarrow> if s \<noteq> [] then JStr (replace_slashes s) else hp
      | _ \<Rightarrow> hp)"

definition read :: "host \<Rightarrow> string option \<Rightarrow> message list \<times> (exn + settings)" where
  "read h workspacefolder =
     (case history_location h workspacefolder of
        (ms, Inl e) \<Rightarrow> (type_warnings h @ ms, Inl e)
      | (ms, Inr (hp, absolute_v)) \<Rightarrow>
          (type_warnings h @ ms,
           Inr \<lparr>folder = workspacefolder,
                daysLimit = js_or (config h ''daysLimit'') (JNum 30),
                saveDelay = js_or (config h ''saveDelay'') (JNum 0),
                maxDisplay = js_or (config h ''maxDisplay'') (JNum 10),
                dateLocale = js_or (config h ''dateLocale'') JUndefined,
                exclude = js_or (config h ''exclude'') default_exclude,
                enabled = (normalize_separators hp \<noteq> JUndefined
                           \<and> normalize_separators hp \<noteq> JNull
                           \<and> normalize_separators hp \<noteq> JStr []),
                historyPath = normalize_separators hp,
                absolute = absolute_v\<rparr>))"

text \<open>
  The cache is the array \<^verbatim>\<open>this.settings\<close>; \<open>get\<close> returns the messages shown, the result
  and the cache afterwards. A lookup that raises leaves the cache as it was.
\<close>

definition same_folder :: "string option \<Rightarrow> settings \<Rightarrow> bool" where
  "same_folder fld v =
     (case (fld, folder v) of
        (Some f, Some vf) \<Rightarrow> vf = f
      | _ \<Rightarrow> fld = folder v)"

definition get ::
  "host \<Rightarrow> settings list \<Rightarrow> string \<Rightarrow> message list \<times> (exn + settings) \<times> settings list" where
  "get h cache file =
     (let fld = map_option wf_uri (getWorkspaceFolder h file) in
      case List.find (same_folder fld) cache of
        Some s \<Rightarrow> ([], Inr s, cache)
      | None \<Rightarrow>
          (case read h fld of
             (ms, Inr s) \<Rightarrow> (ms, Inr s, cache @ [s])
           | (ms, Inl e) \<Rightarrow> (ms, Inl e, cache)))"

definition clear :: "settings list \<Rightarrow> settings list" where
  "clear cache = []"

text \<open>
  A cache is current for a host when each entry is what \<open>read\<close> computes for its folder
  under that host's configuration, as it is after \<open>clear\<close> or after lookups under an
  unchanged configuration.
\<close>

definition cache_current :: "host \<Rightarrow> settings list \<Rightarrow> bool" where
  "cache_current h cache = list_all (\<lambda>s. snd (read h (folder s)) = Inr s) cache"

section \<open>The revision codec\<close>

text \<open>
  \<^verbatim>\<open>history.controller.ts\<close> is not among the sources at hand; only its test suite is.
  The codec below follows section 4.3 of the specification.
\<close>

record timestamp =
  ts_year :: int
  ts_month :: int
  ts_day :: int
  ts_hour :: int
  ts_minute :: int
  ts_second :: int

record file_properties =
  fp_name :: string
  fp_ext :: string
  fp_file :: string
  fp_date :: "timestamp option"

text \<open>Modelled from the spec: the decimal digits of the timestamp block, zero-padded to a
  fixed width (the encoder of \<^verbatim>\<open>history.controller.ts\<close> is missing).\<close>

primrec pad_digits :: "nat \<Rightarrow> int \<Rightarrow> string" where
  "pad_digits 0 n = []"
| "pad_digits (Suc w) n = pad_digits w (n div 10) @ [''0123456789'' ! nat (n mod 10)]"

text \<open>Modelled from the spec: the block \<^verbatim>\<open>YYYYMMDDhhmmss\<close>, the month 1-based on disk and
  0-based in the date value (the encoder of \<^verbatim>\<open>history.controller.ts\<close> is missing).\<close>

definition format_timestamp :: "timestamp \<Rightarrow> string" where
  "format_timestamp t =
     pad_digits 4 (ts_year t) @ pad_digits 2 (ts_month t + 1) @ pad_digits 2 (ts_day t)
     @ pad_digits 2 (ts_hour t) @ pad_digits 2 (ts_minute t) @ pad_digits 2 (ts_second t)"

text \<open>Modelled from the spec: \<^verbatim>\<open>encode(sourceName, ext, timestamp)\<close>, the file name
  \<^verbatim>\<open><stem>_<YYYYMMDDhhmmss><ext>\<close> (the encoder of \<^verbatim>\<open>history.controller.ts\<close> is
  missing).\<close>

definition encode :: "string \<Rightarrow> string \<Rightarrow> timestamp \<Rightarrow> string" where
  "encode stem ext t = stem @ ''_'' @ format_timestamp t @ ext"

text \<open>Modelled from the spec: an extension is empty or a dot followed by characters other
  than dot and slash (the extension rule of \<^verbatim>\<open>history.controller.ts\<close> is missing).\<close>

definition is_extension :: "string \<Rightarrow> bool" where
  "is_extension e =
     (case e of
        [] \<Rightarrow> True
      | c # r \<Rightarrow> c = CHR ''.'' \<and> CHR ''.'' \<notin> set r \<and> CHR ''/'' \<notin> set r)"

text \<open>Modelled from the spec: a timestamp block is 14 digits followed by an extension up to
  the end of the name (the pattern of \<^verbatim>\<open>decodeFile\<close> is missing).\<close>

definition timestamp_block :: "string \<Rightarrow> bool" where
  "timestamp_block cs =
     (14 \<le> length cs \<and> list_all is_digit (take 14 cs) \<and> is_extension (drop 14 cs))"

text \<open>Modelled from the spec: the split of a file name into stem, 14 digits and extension at
  the last underscore that a timestamp block follows (the pattern of \<^verbatim>\<open>decodeFile\<close> is
  missing).\<close>

fun find_split :: "string \<Rightarrow> (string \<times> string \<times> string) option" where
  "find_split [] = None"
| "find_split (c # cs) =
     (case find_split cs of
        Some (stem, ts, ext) \<Rightarrow> Some (c # stem, ts, ext)
      | None \<Rightarrow>
          if c = CHR ''_'' \<and> timestamp_block cs then Some ([], take 14 cs, drop 14 cs)
          else None)"

text \<open>Modelled from the spec: the 14 digits read positionally, the month converted to
  0-based (the date construction of \<^verbatim>\<open>decodeFile\<close> is missing).\<close>

definition parse_timestamp :: "string \<Rightarrow> timestamp" where
  "parse_timestamp ds =
     \<lparr>ts_year = digits_val (take 4 ds),
      ts_month = digits_val (take 2 (drop 4 ds)) - 1,
      ts_day = digits_val (take 2 (drop 6 ds)),
      ts_hour = digits_val (take 2 (drop 8 ds)),
      ts_minute = digits_val (take 2 (drop 10 ds)),
      ts_second = digits_val (take 2 (drop 12 ds))\<rparr>"

text \<open>Modelled from the spec: the last component of a path (the path handling of
  \<^verbatim>\<open>decodeFile\<close> is missing).\<close>

definition file_name :: "string \<Rightarrow> string" where
  "file_name p = rev (takeWhile (\<lambda>c. c \<noteq> CHR ''/'') (rev p))"

text \<open>Modelled from the spec: name and extension of a plain file name, split at its last
  dot (the path handling of \<^verbatim>\<open>decodeFile\<close> is missing).\<close>

definition split_ext :: "string \<Rightarrow> string \<times> string" where
  "split_ext f =
     (if CHR ''.'' \<in> set f
      then (rev (tl (dropWhile (\<lambda>c. c \<noteq> CHR ''.'') (rev f))),
            CHR ''.'' # rev (takeWhile (\<lambda>c. c \<noteq> CHR ''.'') (rev f)))
      else (f, []))"

text \<open>Modelled from the spec: an input looks like a history entry when it lies inside the
  store directory (the test made by \<^verbatim>\<open>decodeFile\<close> is missing).\<close>

definition in_store :: "string \<Rightarrow> string \<Rightarrow> bool" where
  "in_store store p = (store \<noteq> [] \<and> take (length store + 1) p = store @ ''/'')"

text \<open>Modelled from the spec: \<^verbatim>\<open>decode(path)\<close>; \<open>None\<close> is the decode failure
  (\<^verbatim>\<open>decodeFile\<close> of \<^verbatim>\<open>history.controller.ts\<close> is missing).\<close>

definition decode :: "string \<Rightarrow> string \<Rightarrow> file_properties option" where
  "decode store p =
     (case find_split (file_name p) of
        Some (stem, ts, ext) \<Rightarrow>
          Some \<lparr>fp_name = stem, fp_ext = ext, fp_file = p, fp_date = Some (parse_timestamp ts)\<rparr>
      | None \<Rightarrow>
          if in_store store p then None
          else Some \<lparr>fp_name = fst (split_ext (file_name p)),
                     fp_ext = snd (split_ext (file_name p)),
                     fp_file = p, fp_date = None\<rparr>)"

text \<open>Modelled from the spec: the valid triples of the round trip. The stem is a file name
  (no slash), the extension is an extension that does not itself end in an underscore and a
  timestamp block, and the date has a four-digit year and fields in calendar range (the
  spec leaves ``valid'' open).\<close>

definition valid_triple :: "string \<Rightarrow> string \<Rightarrow> timestamp \<Rightarrow> bool" where
  "valid_triple stem ext t =
     (CHR ''/'' \<notin> set stem \<and> is_extension ext \<and> find_split ext = None
      \<and> 1000 \<le> ts_year t \<and> ts_year t \<le> 9999 \<and> 0 \<le> ts_month t \<and> ts_month t \<le> 11
      \<and> 1 \<le> ts_day t \<and> ts_day t \<le> 31 \<and> 0 \<le> ts_hour t \<and> ts_hour t \<le> 23
      \<and> 0 \<le> ts_minute t \<and> ts_minute t \<le> 59 \<and> 0 \<le> ts_second t \<and> ts_second t \<le> 59)"

section \<open>Concrete hosts\<close>

definition example_config :: "(string \<times> jsval) list \<Rightarrow> string \<Rightarrow> jsval" where
  "example_config kv k = (case map_of kv k of Some v \<Rightarrow> v | None \<Rightarrow> JUndefined)"

definition example_folders :: "wsfolder list" where
  "example_folders =
     [\<lparr>wf_uri = ''/workspace1'', wf_name = ''project1'', wf_index = 0\<rparr>,
      \<lparr>wf_uri = ''/workspace2'', wf_name = ''project2'', wf_index = 1\<rparr>]"

definition example_owner :: "string \<Rightarrow> wsfolder option" where
  "example_owner file =
     List.find (\<lambda>f. take (length (wf_uri f) + 1) file = wf_uri f @ ''/'') example_folders"

definition example_inside :: "string \<Rightarrow> string \<Rightarrow> bool" where
  "example_inside child parent = (take (length parent + 1) child = parent @ ''/'')"

definition example_host :: "(string \<times> jsval) list \<Rightarrow> host" where
  "example_host kv =
     \<lparr>config = example_config kv,
      process_env =
        (\<lambda>k. if k = ''TEST_VAR'' then EnvValue ''/test/path''
             else if k = ''HOME'' then EnvValue ''/home/user''
             else if k = ''toString'' then EnvInherited ''function toString() { [native code] }''
             else EnvUndefined),
      homedir = ''/home/user'',
      workspaceFolders = Some example_folders,
      getWorkspaceFolder = example_owner,
      isPathInside = example_inside,
      isIntegerMinus1 = (\<lambda>s. s \<noteq> [] \<and> list_all is_digit s)\<rparr>"

definition example_settings :: "string option \<Rightarrow> jsval \<Rightarrow> jsval \<Rightarrow> bool \<Rightarrow> settings" where
  "example_settings fld hp ab en =
     \<lparr>folder = fld, daysLimit = JNum 30, saveDelay = JNum 0, maxDisplay = JNum 10,
      dateLocale = JUndefined, exclude = default_exclude, enabled = en, historyPath = hp,
      absolute = ab\<rparr>"

definition example_timestamp :: timestamp where
  "example_timestamp =
     \<lparr>ts_year = 2024, ts_month = 11, ts_day = 25, ts_hour = 14, ts_minute = 30, ts_second = 0\<rparr>"

section \<open>Environment tokens\<close>

lemma takeWhile_until:
  "\<forall>x\<in>set xs. P x \<Longrightarrow> \<not> P y \<Longrightarrow> takeWhile P (xs @ y # ys) = xs"
  by (induction xs) auto







section \<open>Facts about the settings resolver\<close>

lemma replace_slashes_id: "replace_slashes s = s"
  by (induction s) (simp_all add: replace_slashes_def path_sep_def)

lemma path_normalize_nonempty: "path_normalize p \<noteq> []"
  by (simp add: path_normalize_def Let_def)

lemma path_join_nonempty: "path_join args \<noteq> []"
  by (simp add: path_join_def Let_def path_normalize_nonempty)

lemma normalize_separators_id: "normalize_separators hp = hp"
  by (cases hp) (simp_all add: normalize_separators_def replace_slashes_id)

lemma store_layout_disabled:
  assumes "store_layout h wfo hws hp = (hp', ab)"
    and "hp' = JUndefined \<or> hp' = JNull \<or> hp' = JStr []"
  shows "ab = JUndefined"
  using assms
  by (cases hp) (auto simp: store_layout_def Let_def path_join_nonempty split: if_splits option.splits)

lemma store_layout_typed:
  assumes "store_layout h wfo hws hp = (hp', ab)"
    and "(\<exists>p. hp = JStr p) \<or> hp = JNull"
  shows "(\<exists>q. hp' = JStr q) \<or> hp' = JNull"
  using assms
  by (cases hp) (auto simp: store_layout_def Let_def split: if_splits option.splits)

lemma resolve_path_cases:
  assumes "resolve_path h wfo p = (ms, Inr (hp', ab))"
  shows "\<exists>hws hp. store_layout h wfo hws hp = (hp', ab) \<and> ((\<exists>q. hp = JStr q) \<or> hp = JNull)"
  using assms
  by (auto simp: resolve_path_def Let_def split: option.splits prod.splits sum.splits)

lemma history_location_disabled:
  assumes "history_location h wfo = (ms, Inr (hp, ab))"
    and "hp = JUndefined \<or> hp = JNull \<or> hp = JStr []"
  shows "ab = JUndefined"
proof (cases "config h ''enabled'' \<noteq> JNum 0 \<and> truthy (config h ''path'') \<and> is_string (config h ''path'')")
  case True
  then obtain p where p: "config h ''path'' = JStr p" by (cases "config h ''path''") auto
  from True p assms(1) have "resolve_path h wfo p = (ms, Inr (hp, ab))"
    by (simp add: history_location_def)
  then obtain hws hp0 where "store_layout h wfo hws hp0 = (hp, ab)"
    using resolve_path_cases by blast
  then show ?thesis using assms(2) by (rule store_layout_disabled)
next
  case False
  then show ?thesis using assms
    by (auto simp: history_location_def Let_def path_join_nonempty split: if_splits option.splits)
qed

lemma history_location_never:
  "config h ''enabled'' = JNum 0 \<Longrightarrow> history_location h wfo = ([], Inr (JNull, JUndefined))"
  by (simp add: history_location_def)

lemma history_location_typed:
  assumes "history_location h wfo = (ms, Inr (hp, ab))"
    and "is_string (config h ''path'') \<or> config h ''path'' = JUndefined \<or> config h ''path'' = JNull"
  shows "(\<exists>q. hp = JStr q) \<or> hp = JNull \<or> hp = JUndefined"
proof (cases "config h ''enabled'' \<noteq> JNum 0 \<and> truthy (config h ''path'') \<and> is_string (config h ''path'')")
  case True
  then obtain p where p: "config h ''path'' = JStr p" by (cases "config h ''path''") auto
  from True p assms(1) have "resolve_path h wfo p = (ms, Inr (hp, ab))"
    by (simp add: history_location_def)
  then obtain hws hp0 where "store_layout h wfo hws hp0 = (hp, ab)" "(\<exists>q. hp0 = JStr q) \<or> hp0 = JNull"
    using resolve_path_cases by blast
  then show ?thesis using store_layout_typed by blast
next
  case False
  with assms(1) have "hp = JNull \<or> (\<exists>root. hp = JStr (path_join [root, ''.history'']))
      \<or> hp = config h ''path''"
    by (auto simp: history_location_def Let_def split: if_splits option.splits)
  then show ?thesis using assms(2) by (cases "config h ''path''") auto
qed

lemma read_Inr:
  assumes "read h wfo = (ms, Inr s)"
  shows "folder s = wfo"
    and "daysLimit s = js_or (config h ''daysLimit'') (JNum 30)"
    and "enabled s = (historyPath s \<noteq> JUndefined \<and> historyPath s \<noteq> JNull \<and> historyPath s \<noteq> JStr [])"
    and "\<exists>ms'. history_location h wfo = (ms', Inr (historyPath s, absolute s))"
  using assms
  by (auto simp: read_def normalize_separators_id split: prod.splits sum.splits)

lemma get_current:
  assumes "cache_current h cache" and "get h cache file = (ms, Inr s, cache')"
  shows "\<exists>ms'. read h (folder s) = (ms', Inr s)"
proof (cases "List.find (same_folder (map_option wf_uri (getWorkspaceFolder h file))) cache")
  case (Some s')
  with assms(2) have "s' = s" by (simp add: get_def)
  with Some have "s \<in> set cache" by (auto simp: find_Some_iff in_set_conv_nth)
  with assms(1) have "snd (read h (folder s)) = Inr s"
    by (simp add: cache_current_def list_all_iff)
  then show ?thesis by (cases "read h (folder s)") auto
next
  case None
  with assms(2) obtain ms' where r: "read h (map_option wf_uri (getWorkspaceFolder h file)) = (ms', Inr s)"
    by (auto simp: get_def split: prod.splits sum.splits)
  then have "folder s = map_option wf_uri (getWorkspaceFolder h file)"
    by (rule read_Inr(1))
  with r show ?thesis by auto
qed

lemma cache_current_clear: "cache_current h (clear cache)"
  by (simp add: cache_current_def clear_def)

lemma get_preserves_current:
  assumes "cache_current h cache" and "get h cache file = (ms, r, cache')"
  shows "cache_current h cache'"
proof (cases "List.find (same_folder (map_option wf_uri (getWorkspaceFolder h file))) cache")
  case (Some s)
  with assms show ?thesis by (simp add: get_def)
next
  case None
  show ?thesis
  proof (cases "read h (map_option wf_uri (getWorkspaceFolder h file))")
    case (Pair ms' r')
    show ?thesis
    proof (cases r')
      case (Inl e)
      with None Pair assms show ?thesis by (simp add: get_def)
    next
      case (Inr s)
      with Pair have "folder s = map_option wf_uri (getWorkspaceFolder h file)"
        by (simp add: read_Inr(1))
      with Pair Inr have "snd (read h (folder s)) = Inr s" by simp
      moreover from None Pair Inr assms(2) have "cache' = cache @ [s]" by (simp add: get_def)
      ultimately show ?thesis using assms(1) by (simp add: cache_current_def)
    qed
  qed
qed



lemma read_token_beyond_index_one:
  assumes "config h ''enabled'' \<noteq> JNum 0"
    and "config h ''path'' = JStr p" and "p \<noteq> []"
    and "hp = replace_home (homedir h) (replace_env (process_env h) p)"
    and "ws_match hp = Some m" and "1 < m_index m"
  shows "\<exists>s. read h wfo
               = (type_warnings h
                  @ [ErrorMessage
                       (''${workspaceFolder} must starts settings time-machine.path '' @ hp)],
                  Inr s)
           \<and> historyPath s = JNull \<and> \<not> enabled s"
proof -
  have "find_history_ws h wfo hp m
        = ([ErrorMessage (''${workspaceFolder} must starts settings time-machine.path '' @ hp)],
           Inr None)"
    using assms(6) by (simp add: find_history_ws_def)
  then have "resolve_path h wfo p
        = ([ErrorMessage (''${workspaceFolder} must starts settings time-machine.path '' @ hp)],
           Inr (JNull, JUndefined))"
    using assms(4,5) by (simp add: resolve_path_def Let_def store_layout_def)
  then have "history_location h wfo
        = ([ErrorMessage (''${workspaceFolder} must starts settings time-machine.path '' @ hp)],
           Inr (JNull, JUndefined))"
    using assms(1-3) by (simp add: history_location_def)
  then show ?thesis by (simp add: read_def normalize_separators_id)
qed

text \<open>
  C2, at the input where the code departs from it: in \<^verbatim>\<open>a${workspaceFolder}/h\<close> the token
  is at index 1, not at the start, yet the guard \<^verbatim>\<open>match.index > 1\<close> lets it pass: no error
  is shown, the token is replaced by the owning root and history is enabled. (From index 2
  on, \<open>read_token_beyond_index_one\<close> gives the error and the absent path.)
\<close>

theorem read_token_at_index_one:
  "ws_match ''a${workspaceFolder}/h''
     = Some \<lparr>m_index = 1, m_text = ''${workspaceFolder}'', m_group = None\<rparr>
   \<and> get (example_host [(''path'', JStr ''a${workspaceFolder}/h'')]) [] ''/workspace1/a.ts''
       = ([], Inr (example_settings (Some ''/workspace1'') (JStr ''a/workspace1/h/.history/workspace1'') JUndefined True),
          [example_settings (Some ''/workspace1'') (JStr ''a/workspace1/h/.history/workspace1'') JUndefined True])"
  by code_simp

text \<open>
  C3, at the input where the code departs from it: when the configured \<^verbatim>\<open>daysLimit\<close> is 0,
  the record returned by \<open>get\<close> carries \<^verbatim>\<open>daysLimit = 30\<close>, because \<^verbatim>\<open>0 || 30\<close> is 30.
\<close>

theorem get_daysLimit_zero:
  assumes "config h ''daysLimit'' = JNum 0" and "cache_current h cache"
    and "get h cache file = (ms, Inr s, cache')"
  shows "daysLimit s = JNum 30"
proof -
  obtain ms' where "read h (folder s) = (ms', Inr s)"
    using get_current [OF assms(2,3)] by blast
  then have "daysLimit s = js_or (config h ''daysLimit'') (JNum 30)"
    by (rule read_Inr(2))
  then show ?thesis using assms(1) by (simp add: js_or_def)
qed

theorem get_daysLimit_zero_witness:
  "config (example_host [(''daysLimit'', JNum 0)]) ''daysLimit'' = JNum 0
   \<and> get (example_host [(''daysLimit'', JNum 0)]) [] ''/workspace1/a.ts''
       = ([], Inr (example_settings (Some ''/workspace1'') (JStr ''/workspace1/.history'') (JBool False) True),
          [example_settings (Some ''/workspace1'') (JStr ''/workspace1/.history'') (JBool False) True])
   \<and> daysLimit (example_settings (Some ''/workspace1'') (JStr ''/workspace1/.history'') (JBool False) True) = JNum 30"
proof -
  have c: "config (example_host [(''daysLimit'', JNum 0)]) ''daysLimit'' = JNum 0"
    by code_simp
  have cc: "cache_current (example_host [(''daysLimit'', JNum 0)]) []"
    by (simp add: cache_current_def)
  have g: "get (example_host [(''daysLimit'', JNum 0)]) [] ''/workspace1/a.ts''
       = ([], Inr (example_settings (Some ''/workspace1'') (JStr ''/workspace1/.history'') (JBool False) True),
          [example_settings (Some ''/workspace1'') (JStr ''/workspace1/.history'') (JBool False) True])"
    by code_simp
  show ?thesis using c g get_daysLimit_zero [OF c cc g] by simp
qed

text \<open>
  C4: for a non-empty path template with a named or indexed \<^verbatim>\<open>${workspaceFolder: ...}\<close>
  token that is accepted (index at most 1) and found among the workspace folders, the
  \<^verbatim>\<open>absolute\<close> flag falsy and an owning root present, the store root is
  \<^verbatim>\<open>path.join(resolved, '.history', suffix)\<close>, where the suffix is empty when the owning root
  is inside the folder the token names and the owning root's base name otherwise.
\<close>

theorem read_relative_layout:
  assumes "config h ''enabled'' \<noteq> JNum 0"
    and "config h ''path'' = JStr p" and "p \<noteq> []"
    and "hp = replace_home (homedir h) (replace_env (process_env h) p)"
    and "ws_match hp = Some m" and "m_index m \<le> 1"
    and "m_group m = Some wsId" and "wsId \<noteq> []"
    and "workspaceFolders h = Some wsfs"
    and "List.find (\<lambda>wsf. if isIntegerMinus1 h wsId
                           then parse_int10 wsId = Some (wf_index wsf)
                           else wf_name wsf = wsId) wsfs = Some target"
    and "resolved = replace_first (m_text m) (wf_uri target) hp" and "resolved \<noteq> []"
    and "\<not> truthy (config h ''absolute'')"
  shows "\<exists>s. read h (Some root) = (type_warnings h, Inr s)
           \<and> historyPath s
               = JStr (path_join [resolved, ''.history'',
                                  if isPathInside h root (wf_uri target) then []
                                  else path_basename root])
           \<and> absolute s = config h ''absolute'' \<and> enabled s"
proof -
  have f: "find_history_ws h (Some root) hp m = ([], Inr (Some (wf_uri target)))"
    using assms(6-10) by (simp add: find_history_ws_def)
  have l: "store_layout h (Some root) (Some (wf_uri target)) (JStr resolved)
           = (JStr (path_join [resolved, ''.history'',
                               if isPathInside h root (wf_uri target) then []
                               else path_basename root]),
              config h ''absolute'')"
    using assms(12,13) by (simp add: store_layout_def Let_def)
  have "resolve_path h (Some root) p
        = ([], Inr (JStr (path_join [resolved, ''.history'',
                                     if isPathInside h root (wf_uri target) then []
                                     else path_basename root]),
                    config h ''absolute''))"
    using assms(4,5,11) f l by (simp add: resolve_path_def Let_def)
  then have "history_location h (Some root)
        = ([], Inr (JStr (path_join [resolved, ''.history'',
                                     if isPathInside h root (wf_uri target) then []
                                     else path_basename root]),
                    config h ''absolute''))"
    using assms(1-3) by (simp add: history_location_def)
  then show ?thesis
    by (simp add: read_def normalize_separators_id path_join_nonempty)
qed

theorem read_relative_layout_witness:
  "read (example_host [(''path'', JStr ''${workspaceFolder: project2}/custom-history''),
                        (''absolute'', JBool False)]) (Some ''/workspace1'')
     = ([], Inr (example_settings (Some ''/workspace1'')
                   (JStr ''/workspace2/custom-history/.history/workspace1'') (JBool False) True))
   \<and> read (example_host [(''path'', JStr ''${workspaceFolder: 1}/custom-history''),
                          (''absolute'', JBool False)]) (Some ''/workspace2/sub'')
     = ([], Inr (example_settings (Some ''/workspace2/sub'')
                   (JStr ''/workspace2/custom-history/.history'') (JBool False) True))"
proof -
  let ?h1 = "example_host [(''path'', JStr ''${workspaceFolder: project2}/custom-history''),
                           (''absolute'', JBool False)]"
  let ?h2 = "example_host [(''path'', JStr ''${workspaceFolder: 1}/custom-history''),
                           (''absolute'', JBool False)]"
  let ?t = "\<lparr>wf_uri = ''/workspace2'', wf_name = ''project2'', wf_index = 1\<rparr>"
  have "\<exists>s. read ?h1 (Some ''/workspace1'') = (type_warnings ?h1, Inr s)
           \<and> historyPath s
               = JStr (path_join [''/workspace2/custom-history'', ''.history'',
                                  if isPathInside ?h1 ''/workspace1'' (wf_uri ?t) then []
                                  else path_basename ''/workspace1''])
           \<and> absolute s = config ?h1 ''absolute'' \<and> enabled s"
  proof (rule read_relative_layout [where p = "''${workspaceFolder: project2}/custom-history''"
        and hp = "''${workspaceFolder: project2}/custom-history''"
        and m = "\<lparr>m_index = 0, m_text = ''${workspaceFolder: project2}'', m_group = Some ''project2''\<rparr>"
        and wsId = "''project2''" and wsfs = example_folders])
  qed code_simp+
  moreover
  have "\<exists>s. read ?h2 (Some ''/workspace2/sub'') = (type_warnings ?h2, Inr s)
           \<and> historyPath s
               = JStr (path_join [''/workspace2/custom-history'', ''.history'',
                                  if isPathInside ?h2 ''/workspace2/sub'' (wf_uri ?t) then []
                                  else path_basename ''/workspace2/sub''])
           \<and> absolute s = config ?h2 ''absolute'' \<and> enabled s"
  proof (rule read_relative_layout [where p = "''${workspaceFolder: 1}/custom-history''"
        and hp = "''${workspaceFolder: 1}/custom-history''"
        and m = "\<lparr>m_index = 0, m_text = ''${workspaceFolder: 1}'', m_group = Some ''1''\<rparr>"
        and wsId = "''1''" and wsfs = example_folders])
  qed code_simp+
  moreover
  have "read ?h1 (Some ''/workspace1'')
     = ([], Inr (example_settings (Some ''/workspace1'')
                   (JStr ''/workspace2/custom-history/.history/workspace1'') (JBool False) True))"
    by code_simp
  moreover
  have "read ?h2 (Some ''/workspace2/sub'')
     = ([], Inr (example_settings (Some ''/workspace2/sub'')
                   (JStr ''/workspace2/custom-history/.history'') (JBool False) True))"
    by code_simp
  ultimately show ?thesis by simp
qed

text \<open>
  C7: when the configured \<^verbatim>\<open>enabled\<close> is 0 (Never), \<open>get\<close> on a current cache returns a
  record, for every file and whatever the other configuration values are, and that record
  has \<^verbatim>\<open>historyPath\<close> null and \<^verbatim>\<open>enabled\<close> false.
\<close>

theorem get_never:
  assumes "config h ''enabled'' = JNum 0" and "cache_current h cache"
  shows "\<exists>ms s cache'. get h cache file = (ms, Inr s, cache')
           \<and> historyPath s = JNull \<and> \<not> enabled s"
proof -
  have never: "\<And>wfo. history_location h wfo = ([], Inr (JNull, JUndefined))"
    using assms(1) by (rule history_location_never)
  have "\<exists>ms s cache'. get h cache file = (ms, Inr s, cache')"
  proof (cases "List.find (same_folder (map_option wf_uri (getWorkspaceFolder h file))) cache")
    case None
    then show ?thesis by (simp add: get_def read_def never Let_def)
  next
    case (Some s)
    then show ?thesis by (simp add: get_def)
  qed
  then obtain ms s cache' where g: "get h cache file = (ms, Inr s, cache')" by blast
  obtain ms' where r: "read h (folder s) = (ms', Inr s)"
    using get_current [OF assms(2) g] by blast
  from read_Inr(4) [OF r] never have hp: "historyPath s = JNull" by auto
  with read_Inr(3) [OF r] have "\<not> enabled s" by simp
  with g hp show ?thesis by blast
qed

theorem get_never_witness:
  "get (example_host [(''enabled'', JNum 0), (''path'', JStr ''/custom''), (''absolute'', JBool True)])
       [] ''/workspace1/a.ts''
   = ([], Inr (example_settings (Some ''/workspace1'') JNull JUndefined False),
      [example_settings (Some ''/workspace1'') JNull JUndefined False])"
proof -
  let ?h = "example_host [(''enabled'', JNum 0), (''path'', JStr ''/custom''), (''absolute'', JBool True)]"
  have c: "config ?h ''enabled'' = JNum 0" by code_simp
  have cc: "cache_current ?h []" by (simp add: cache_current_def)
  from get_never [OF c cc, of "''/workspace1/a.ts''"]
  obtain ms s cache' where "get ?h [] ''/workspace1/a.ts'' = (ms, Inr s, cache')"
    and "historyPath s = JNull" and "\<not> enabled s" by blast
  moreover have "get ?h [] ''/workspace1/a.ts''
     = ([], Inr (example_settings (Some ''/workspace1'') JNull JUndefined False),
        [example_settings (Some ''/workspace1'') JNull JUndefined False])"
    by code_simp
  ultimately show ?thesis by simp
qed



text \<open>
  With a configured path that is a string or absent, \<^verbatim>\<open>enabled\<close> is true exactly when
  \<^verbatim>\<open>historyPath\<close> is a non-empty string.
\<close>

lemma get_enabled_typed_path:
  assumes "cache_current h cache" and "get h cache file = (ms, Inr s, cache')"
    and "is_string (config h ''path'') \<or> config h ''path'' = JUndefined
         \<or> config h ''path'' = JNull"
  shows "enabled s \<longleftrightarrow> (\<exists>p. historyPath s = JStr p \<and> p \<noteq> [])"
proof -
  obtain ms' where r: "read h (folder s) = (ms', Inr s)"
    using get_current [OF assms(1,2)] by blast
  have e: "enabled s \<longleftrightarrow>
            historyPath s \<noteq> JUndefined \<and> historyPath s \<noteq> JNull \<and> historyPath s \<noteq> JStr []"
    by (rule read_Inr(3) [OF r])
  obtain ms'' where hl: "history_location h (folder s) = (ms'', Inr (historyPath s, absolute s))"
    using read_Inr(4) [OF r] by blast
  from history_location_typed [OF hl assms(3)]
  have "(\<exists>q. historyPath s = JStr q) \<or> historyPath s = JNull \<or> historyPath s = JUndefined" .
  with e show ?thesis by auto
qed

text \<open>
  C9, at the input where the code departs from it: with an array configured as path and a
  file outside every workspace folder, line 126 rejects the value as a path, no root is
  there to fall back on, and the value stays in \<^verbatim>\<open>historyPath\<close>; line 208 tests it only
  against null and the empty string, so \<^verbatim>\<open>enabled\<close> is true although \<^verbatim>\<open>historyPath\<close> is not
  a string.
\<close>

theorem get_enabled_nonstring_path:
  "get (example_host [(''enabled'', JNum 1), (''path'', JArr [])]) [] ''/outside/test.ts''
   = ([], Inr (example_settings None (JArr []) JUndefined True),
      [example_settings None (JArr []) JUndefined True])
   \<and> enabled (example_settings None (JArr []) JUndefined True)
   \<and> \<not> is_string (historyPath (example_settings None (JArr []) JUndefined True))"
  by code_simp

text \<open>
  C10: in every record returned by \<open>get\<close> on a current cache, \<^verbatim>\<open>enabled = false\<close> implies
  that \<^verbatim>\<open>absolute\<close> is undefined, and a boolean \<^verbatim>\<open>absolute\<close> implies \<^verbatim>\<open>enabled = true\<close>.
\<close>

theorem get_disabled_absolute:
  assumes "cache_current h cache" and "get h cache file = (ms, Inr s, cache')"
  shows "(\<not> enabled s \<longrightarrow> absolute s = JUndefined) \<and> (is_boolean (absolute s) \<longrightarrow> enabled s)"
proof -
  obtain ms' where r: "read h (folder s) = (ms', Inr s)"
    using get_current [OF assms] by blast
  obtain ms'' where hl: "history_location h (folder s) = (ms'', Inr (historyPath s, absolute s))"
    using read_Inr(4) [OF r] by blast
  have "absolute s = JUndefined" if "\<not> enabled s"
  proof -
    from that read_Inr(3) [OF r]
    have "historyPath s = JUndefined \<or> historyPath s = JNull \<or> historyPath s = JStr []" by blast
    with hl show ?thesis by (rule history_location_disabled)
  qed
  then show ?thesis by (cases "absolute s") auto
qed

theorem get_disabled_absolute_witness:
  "get (example_host [(''path'', JStr ''x/${workspaceFolder}''), (''absolute'', JBool True)])
       [] ''/workspace1/a.ts''
   = ([ErrorMessage
         ''${workspaceFolder} must starts settings time-machine.path x/${workspaceFolder}''],
      Inr (example_settings (Some ''/workspace1'') JNull JUndefined False),
      [example_settings (Some ''/workspace1'') JNull JUndefined False])
   \<and> \<not> enabled (example_settings (Some ''/workspace1'') JNull JUndefined False)
   \<and> absolute (example_settings (Some ''/workspace1'') JNull JUndefined False) = JUndefined
   \<and> get (example_host [(''path'', JStr ''/custom''), (''absolute'', JBool True)])
         [] ''/workspace1/a.ts''
     = ([], Inr (example_settings (Some ''/workspace1'') (JStr ''/custom/.history'') (JBool True) True),
        [example_settings (Some ''/workspace1'') (JStr ''/custom/.history'') (JBool True) True])
   \<and> is_boolean (absolute (example_settings (Some ''/workspace1'') (JStr ''/custom/.history'')
                               (JBool True) True))
   \<and> enabled (example_settings (Some ''/workspace1'') (JStr ''/custom/.history'') (JBool True) True)"
proof -
  let ?h = "example_host [(''path'', JStr ''x/${workspaceFolder}''), (''absolute'', JBool True)]"
  let ?s = "example_settings (Some ''/workspace1'') JNull JUndefined False"
  let ?h' = "example_host [(''path'', JStr ''/custom''), (''absolute'', JBool True)]"
  let ?s' = "example_settings (Some ''/workspace1'') (JStr ''/custom/.history'') (JBool True) True"
  have cc: "cache_current ?h []" by (simp add: cache_current_def)
  have g: "get ?h [] ''/workspace1/a.ts''
    = ([ErrorMessage
          ''${workspaceFolder} must starts settings time-machine.path x/${workspaceFolder}''],
       Inr ?s, [?s])"
    by code_simp
  have e: "\<not> enabled ?s" by (simp add: example_settings_def)
  have cc': "cache_current ?h' []" by (simp add: cache_current_def)
  have g': "get ?h' [] ''/workspace1/a.ts'' = ([], Inr ?s', [?s'])" by code_simp
  have b: "is_boolean (absolute ?s')" by (simp add: example_settings_def)
  show ?thesis
    using g e get_disabled_absolute [OF cc g] g' b get_disabled_absolute [OF cc' g'] by simp
qed

section \<open>Facts about the revision codec\<close>

lemma digit_val_digit:
  assumes "0 \<le> d" and "d < 10"
  shows "digit_val (''0123456789'' ! nat d) = Some d"
proof -
  from assms have "d = 0 \<or> d = 1 \<or> d = 2 \<or> d = 3 \<or> d = 4 \<or> d = 5 \<or> d = 6 \<or> d = 7 \<or> d = 8 \<or> d = 9"
    by arith
  then show ?thesis by (elim disjE) (simp_all add: digit_val_def)
qed

lemma is_digit_underscore: "\<not> is_digit (CHR ''_'')"
  by (simp add: is_digit_def digit_val_def)

lemma is_digit_slash: "\<not> is_digit (CHR ''/'')"
  by (simp add: is_digit_def digit_val_def)

lemma digits_val_snoc:
  "digits_val (xs @ [c])
   = 10 * digits_val xs + (case digit_val c of Some d \<Rightarrow> d | None \<Rightarrow> 0)"
  by (simp add: digits_val_def)

lemma length_pad_digits: "length (pad_digits w n) = w"
  by (induction w arbitrary: n) simp_all

lemma pad_digits_are_digits: "list_all is_digit (pad_digits w n)"
proof (induction w arbitrary: n)
  case 0
  then show ?case by simp
next
  case (Suc w)
  have "digit_val (''0123456789'' ! nat (n mod 10)) = Some (n mod 10)"
    by (rule digit_val_digit) simp_all
  then have "is_digit (''0123456789'' ! nat (n mod 10))" by (simp add: is_digit_def)
  with Suc show ?case by simp
qed

lemma digits_val_pad_digits:
  "0 \<le> n \<Longrightarrow> n < 10 ^ w \<Longrightarrow> digits_val (pad_digits w n) = n"
proof (induction w arbitrary: n)
  case 0
  then show ?case by (simp add: digits_val_def)
next
  case (Suc w)
  have d: "digit_val (''0123456789'' ! nat (n mod 10)) = Some (n mod 10)"
    by (rule digit_val_digit) simp_all
  from Suc.prems have "0 \<le> n div 10" and "n div 10 < 10 ^ w" by simp_all
  then have "digits_val (pad_digits w (n div 10)) = n div 10" by (rule Suc.IH)
  then show ?case by (simp add: digits_val_snoc d)
qed

lemma length_format_timestamp: "length (format_timestamp t) = 14"
  by (simp add: format_timestamp_def length_pad_digits)

lemma format_timestamp_digits: "list_all is_digit (format_timestamp t)"
  by (simp add: format_timestamp_def pad_digits_are_digits)

lemma parse_format_timestamp:
  assumes "0 \<le> ts_year t" "ts_year t \<le> 9999" "0 \<le> ts_month t" "ts_month t \<le> 11"
    "0 \<le> ts_day t" "ts_day t \<le> 31" "0 \<le> ts_hour t" "ts_hour t \<le> 23"
    "0 \<le> ts_minute t" "ts_minute t \<le> 59" "0 \<le> ts_second t" "ts_second t \<le> 59"
  shows "parse_timestamp (format_timestamp t) = t"
proof -
  have y: "digits_val (pad_digits 4 (ts_year t)) = ts_year t"
    using assms by (intro digits_val_pad_digits) simp_all
  have mo: "digits_val (pad_digits 2 (ts_month t + 1)) = ts_month t + 1"
    using assms by (intro digits_val_pad_digits) simp_all
  have d: "digits_val (pad_digits 2 (ts_day t)) = ts_day t"
    using assms by (intro digits_val_pad_digits) simp_all
  have h: "digits_val (pad_digits 2 (ts_hour t)) = ts_hour t"
    using assms by (intro digits_val_pad_digits) simp_all
  have mi: "digits_val (pad_digits 2 (ts_minute t)) = ts_minute t"
    using assms by (intro digits_val_pad_digits) simp_all
  have s: "digits_val (pad_digits 2 (ts_second t)) = ts_second t"
    using assms by (intro digits_val_pad_digits) simp_all
  show ?thesis
    unfolding parse_timestamp_def format_timestamp_def
    by (simp add: length_pad_digits y mo d h mi s del: pad_digits.simps)
qed

lemma find_split_digits:
  "list_all is_digit ds \<Longrightarrow> find_split e = None \<Longrightarrow> find_split (ds @ e) = None"
  by (induction ds) (auto simp: is_digit_underscore)

lemma find_split_stem:
  "find_split r = None \<Longrightarrow> timestamp_block r
   \<Longrightarrow> find_split (stem @ CHR ''_'' # r) = Some (stem, take 14 r, drop 14 r)"
  by (induction stem) simp_all

lemma find_split_Some:
  "find_split f = Some (st, ts, e) \<Longrightarrow> f = st @ CHR ''_'' # ts @ e \<and> timestamp_block (ts @ e)"
proof (induction f arbitrary: st)
  case Nil
  then show ?case by simp
next
  case (Cons c cs)
  show ?case
  proof (cases "find_split cs")
    case None
    with Cons.prems show ?thesis by (auto split: if_splits)
  next
    case (Some x)
    obtain st' ts' e' where x: "x = (st', ts', e')" by (cases x) auto
    with Some Cons.prems have "st = c # st'" "ts' = ts" "e' = e" by simp_all
    with Cons.IH [of st'] Some x show ?thesis by simp
  qed
qed

lemma find_split_found:
  "timestamp_block r \<Longrightarrow> find_split (stem @ CHR ''_'' # r) \<noteq> None"
  by (induction stem) (auto split: option.splits)

lemma find_split_None_iff:
  "find_split f = None \<longleftrightarrow> \<not> (\<exists>stem r. f = stem @ CHR ''_'' # r \<and> timestamp_block r)"
proof
  assume "find_split f = None"
  then show "\<not> (\<exists>stem r. f = stem @ CHR ''_'' # r \<and> timestamp_block r)"
    using find_split_found by blast
next
  assume n: "\<not> (\<exists>stem r. f = stem @ CHR ''_'' # r \<and> timestamp_block r)"
  show "find_split f = None"
  proof (cases "find_split f")
    case None
    then show ?thesis .
  next
    case (Some x)
    obtain st ts e where "x = (st, ts, e)" by (cases x) auto
    with Some have "f = st @ CHR ''_'' # ts @ e \<and> timestamp_block (ts @ e)"
      by (simp add: find_split_Some)
    with n show ?thesis by blast
  qed
qed

lemma file_name_append:
  assumes "CHR ''/'' \<notin> set f" and "dir = [] \<or> last dir = CHR ''/''"
  shows "file_name (dir @ f) = f"
proof (cases "dir = []")
  case True
  have tw: "takeWhile (\<lambda>c. c \<noteq> CHR ''/'') (rev f) = rev f"
    using assms(1) by (auto simp: takeWhile_eq_all_conv)
  show ?thesis using True by (simp add: file_name_def tw)
next
  case False
  with assms(2) obtain d where d: "dir = d @ [CHR ''/'']"
    by (metis append_butlast_last_id)
  have "takeWhile (\<lambda>c. c \<noteq> CHR ''/'') (rev f @ CHR ''/'' # rev d) = rev f"
    using assms(1) by (intro takeWhile_until) auto
  then show ?thesis by (simp add: file_name_def d)
qed

lemma is_extension_no_slash: "is_extension e \<Longrightarrow> CHR ''/'' \<notin> set e"
  by (cases e) (auto simp: is_extension_def)

lemma digits_no_slash: "list_all is_digit ds \<Longrightarrow> CHR ''/'' \<notin> set ds"
  by (induction ds) (auto simp: is_digit_slash)

text \<open>
  C5: for every valid triple, decoding the encoded file name, alone or below a directory,
  gives back the stem, the extension and the timestamp (second granularity, month 0-based
  in the date and 1-based in the name).
\<close>

theorem decode_encode:
  assumes "valid_triple stem ext t" and "dir = [] \<or> last dir = CHR ''/''"
  shows "decode store (dir @ encode stem ext t)
         = Some \<lparr>fp_name = stem, fp_ext = ext, fp_file = dir @ encode stem ext t,
                 fp_date = Some t\<rparr>"
proof -
  let ?ts = "format_timestamp t"
  from assms(1) have stem: "CHR ''/'' \<notin> set stem" and ext: "is_extension ext"
    and none: "find_split ext = None"
    by (simp_all add: valid_triple_def)
  have "CHR ''/'' \<notin> set (encode stem ext t)"
    using stem is_extension_no_slash [OF ext] digits_no_slash [OF format_timestamp_digits]
    by (simp add: encode_def)
  then have fn: "file_name (dir @ encode stem ext t) = encode stem ext t"
    using assms(2) by (rule file_name_append)
  have blk: "timestamp_block (?ts @ ext)"
    using ext by (simp add: timestamp_block_def length_format_timestamp format_timestamp_digits)
  have "find_split (?ts @ ext) = None"
    using format_timestamp_digits none by (rule find_split_digits)
  then have "find_split (stem @ CHR ''_'' # ?ts @ ext)
             = Some (stem, take 14 (?ts @ ext), drop 14 (?ts @ ext))"
    using blk by (rule find_split_stem)
  then have fs: "find_split (encode stem ext t) = Some (stem, ?ts, ext)"
    by (simp add: encode_def length_format_timestamp)
  have "parse_timestamp ?ts = t"
    using assms(1) by (intro parse_format_timestamp) (simp_all add: valid_triple_def)
  then show ?thesis by (simp add: decode_def fn fs)
qed

theorem decode_encode_witness:
  "valid_triple ''test.config'' ''.js'' example_timestamp
   \<and> encode ''test.config'' ''.js'' example_timestamp = ''test.config_20241225143000.js''
   \<and> decode ''/workspace/.history'' ''/workspace/.history/test.config_20241225143000.js''
       = Some \<lparr>fp_name = ''test.config'', fp_ext = ''.js'',
               fp_file = ''/workspace/.history/test.config_20241225143000.js'',
               fp_date = Some example_timestamp\<rparr>"
proof -
  have v: "valid_triple ''test.config'' ''.js'' example_timestamp" by code_simp
  have d: "''/workspace/.history/'' = [] \<or> last ''/workspace/.history/'' = CHR ''/''" by simp
  have e: "encode ''test.config'' ''.js'' example_timestamp = ''test.config_20241225143000.js''"
    by code_simp
  from decode_encode [OF v d, of "''/workspace/.history''"] e v show ?thesis by simp
qed

text \<open>
  C6: when the file name of the input has no underscore followed by a timestamp block,
  \<open>decode\<close> returns the failure \<open>None\<close> for an input inside the store, and a record without
  a date for an input outside it; it is a total function, so it never raises.
\<close>

theorem decode_without_timestamp:
  assumes "\<not> (\<exists>stem r. file_name p = stem @ CHR ''_'' # r \<and> timestamp_block r)"
  shows "(in_store store p \<longrightarrow> decode store p = None)
         \<and> (\<not> in_store store p
            \<longrightarrow> (\<exists>r. decode store p = Some r \<and> fp_date r = None \<and> fp_file r = p))"
proof -
  from assms have "find_split (file_name p) = None" by (rule find_split_None_iff [THEN iffD2])
  then show ?thesis by (simp add: decode_def)
qed

theorem decode_without_timestamp_witness:
  "decode ''/workspace/.history'' ''/workspace/.history/invalid_filename.ts'' = None
   \<and> decode ''/workspace/.history'' ''/workspace/invalid_file.ts''
       = Some \<lparr>fp_name = ''invalid_file'', fp_ext = ''.ts'',
               fp_file = ''/workspace/invalid_file.ts'', fp_date = None\<rparr>"
proof -
  have n1: "find_split (file_name ''/workspace/.history/invalid_filename.ts'') = None"
    by code_simp
  have n2: "find_split (file_name ''/workspace/invalid_file.ts'') = None"
    by code_simp
  have i1: "in_store ''/workspace/.history'' ''/workspace/.history/invalid_filename.ts''"
    by code_simp
  have i2: "\<not> in_store ''/workspace/.history'' ''/workspace/invalid_file.ts''"
    by code_simp
  have d2: "decode ''/workspace/.history'' ''/workspace/invalid_file.ts''
       = Some \<lparr>fp_name = ''invalid_file'', fp_ext = ''.ts'',
               fp_file = ''/workspace/invalid_file.ts'', fp_date = None\<rparr>"
    by code_simp
  from decode_without_timestamp [OF find_split_None_iff [THEN iffD1, OF n1], of "''/workspace/.history''"] i1
  have "decode ''/workspace/.history'' ''/workspace/.history/invalid_filename.ts'' = None"
    by blast
  moreover
  from decode_without_timestamp [OF find_split_None_iff [THEN iffD1, OF n2], of "''/workspace/.history''"] i2
  have "\<exists>r. decode ''/workspace/.history'' ''/workspace/invalid_file.ts'' = Some r \<and> fp_date r = None"
    by blast
  ultimately show ?thesis using d2 by simp
qed

end
